theory Spec2Isabelle
  imports Complex_Main "HOL-Library.Sublist" "HOL-Library.Log_Nat" "HOL-Library.AList"
    "HOL-Library.Word"
begin

section \<open>The message classifier of \<open>src/utils/llmHelper.js\<close>\<close>

text \<open>
  The file exports \<open>categorizeMessage\<close>, which asks a hosted model for a JSON verdict,
  parses the reply (\<open>parseJsonResponse\<close>), normalises it
  (\<open>normalizeCategorizationResult\<close>) and, when anything inside its \<open>try\<close> block throws,
  falls back to the keyword heuristic \<open>getMockCategorization\<close>.

  The embedding keeps the source's function names. The JavaScript built-ins the four
  functions call (\<open>trim\<close>, \<open>toLowerCase\<close>, \<open>includes\<close>, \<open>match\<close>, \<open>Number\<close>,
  \<open>Number.isInteger\<close>, \<open>JSON.parse\<close>) are modelled first, after ECMA-262.

  A JavaScript string is a sequence of UTF-16 code units. The two texts the program
  reads, the customer's message and the reply of the model, are a \<open>string\<close> whose
  characters stand for the code units \<open>0x00\<close> to \<open>0xFF\<close> (the Latin-1 range, on
  which \<open>toLowerCase\<close> is a small table); texts with code units above \<open>0xFF\<close> are
  outside the model. The strings inside values, which \<open>JSON.parse\<close> builds and the
  result carries, are lists of 16-bit code units: an escape \<open>\\uXXXX\<close> of a reply can
  denote any of them.
\<close>

subsection \<open>Strings\<close>

definition is_js_space :: "char \<Rightarrow> bool" where
  \<comment> \<open>WhiteSpace and LineTerminator of ECMA-262 below \<open>0x100\<close>: TAB, LF, VT, FF, CR, SP, NBSP.
      Both \<open>String.prototype.trim\<close> and the regular expression class \<open>\\s\<close> use this set.\<close>
  "is_js_space c = ((of_char c :: nat) \<in> {9, 10, 11, 12, 13, 32, 160})"

definition trim :: "string \<Rightarrow> string" where
  "trim s = rev (dropWhile is_js_space (rev (dropWhile is_js_space s)))"

type_synonym code_unit = "16 word"

type_synonym ustring = "code_unit list"

definition js :: "string \<Rightarrow> ustring" where
  \<comment> \<open>A Latin-1 text as a string value; it writes the string literals of the source.\<close>
  "js s = map of_char s"

definition is_space_unit :: "code_unit \<Rightarrow> bool" where
  \<comment> \<open>WhiteSpace and LineTerminator of ECMA-262 among all code units: the seven below
      \<open>0x100\<close>, the other space separators, the line and paragraph separators and the
      byte order mark.\<close>
  "is_space_unit u =
     (u \<in> {0x09, 0x0A, 0x0B, 0x0C, 0x0D, 0x20, 0xA0, 0x1680, 0x2028, 0x2029, 0x202F,
            0x205F, 0x3000, 0xFEFF}
      \<or> (0x2000 \<le> u \<and> u \<le> 0x200A))"

definition trim_units :: "ustring \<Rightarrow> ustring" where
  \<comment> \<open>\<open>String.prototype.trim\<close> on a string value.\<close>
  "trim_units s = rev (dropWhile is_space_unit (rev (dropWhile is_space_unit s)))"

definition narrow :: "ustring \<Rightarrow> string option" where
  \<comment> \<open>The same text on the Latin-1 carrier, when no code unit is above \<open>0xFF\<close>.\<close>
  "narrow s =
     (if list_all (\<lambda>u. u < 0x100) s then Some (map (\<lambda>u. char_of (unat u)) s) else None)"

definition toLowerCase_char :: "char \<Rightarrow> char" where
  \<comment> \<open>\<open>A\<close> to \<open>Z\<close>, and the Latin-1 capitals \<open>0xC0\<close> to \<open>0xDE\<close> except the
      multiplication sign \<open>0xD7\<close>, move up by 32.\<close>
  "toLowerCase_char c =
     (let n = (of_char c :: nat)
      in if (65 \<le> n \<and> n \<le> 90) \<or> (192 \<le> n \<and> n \<le> 222 \<and> n \<noteq> 215)
         then char_of (n + 32) else c)"

definition toLowerCase :: "string \<Rightarrow> string" where
  "toLowerCase s = map toLowerCase_char s"

fun js_includes :: "string \<Rightarrow> string \<Rightarrow> bool" where
  \<comment> \<open>\<open>s.includes(sub)\<close>: \<open>sub\<close> occurs in \<open>s\<close> as a contiguous run.\<close>
  "js_includes [] sub = (sub = [])"
| "js_includes (c # cs) sub = (prefix sub (c # cs) \<or> js_includes cs sub)"

definition is_digit :: "char \<Rightarrow> bool" where
  "is_digit c = (48 \<le> (of_char c :: nat) \<and> (of_char c :: nat) \<le> 57)"

definition is_alpha :: "char \<Rightarrow> bool" where
  "is_alpha c =
     (let n = (of_char c :: nat) in (65 \<le> n \<and> n \<le> 90) \<or> (97 \<le> n \<and> n \<le> 122))"

definition digit_of :: "char \<Rightarrow> int option" where
  \<comment> \<open>The value of a digit in any radix up to 16.\<close>
  "digit_of c =
     (let n = (of_char c :: int)
      in if 48 \<le> n \<and> n \<le> 57 then Some (n - 48)
         else if 97 \<le> n \<and> n \<le> 102 then Some (n - 87)
         else if 65 \<le> n \<and> n \<le> 70 then Some (n - 55)
         else None)"

definition is_radix_digit :: "int \<Rightarrow> char \<Rightarrow> bool" where
  "is_radix_digit b c = (case digit_of c of None \<Rightarrow> False | Some d \<Rightarrow> d < b)"

definition int_of_digits :: "int \<Rightarrow> string \<Rightarrow> int" where
  "int_of_digits b ds = foldl (\<lambda>n c. b * n + (case digit_of c of None \<Rightarrow> 0 | Some d \<Rightarrow> d)) 0 ds"

subsection \<open>Numbers\<close>

text \<open>
  A JavaScript number is an IEEE 754 binary64 value. The model keeps the finite ones as
  the rational they denote (the two zeros are not told apart: the program only compares
  numbers and tests integrality, and both zeros behave alike there).
\<close>

datatype jsnum = NaN | PosInf | NegInf | Fin rat

definition round_half_even :: "rat \<Rightarrow> int" where
  "round_half_even x =
     (let f = \<lfloor>x\<rfloor>; d = x - of_int f
      in if d < 1 / 2 then f else if 1 / 2 < d then f + 1
         else if even f then f else f + 1)"

definition floor_log2 :: "rat \<Rightarrow> int" where
  \<comment> \<open>For \<open>0 < x\<close>: the \<open>e\<close> with \<open>2 ^ e \<le> x < 2 ^ (e + 1)\<close>.\<close>
  "floor_log2 x =
     (let (p, q) = quotient_of x;
          d = bitlen p - bitlen q
      in if 2 powi d \<le> x then d else d - 1)"

definition to_double :: "rat \<Rightarrow> jsnum" where
  \<comment> \<open>The Number value for a mathematical value: round to the nearest binary64 value,
      ties to the even significand. \<open>e\<close> is the binary exponent (at least \<open>-1022\<close>, below
      which values are subnormal), \<open>m\<close> the significand as an integer of up to 53 bits;
      a value that rounds up to \<open>2 ^ 1024\<close> or lies beyond it becomes an infinity.\<close>
  "to_double x =
     (if x = 0 then Fin 0
      else let e = max (floor_log2 \<bar>x\<bar>) (- 1022);
               m = round_half_even (x / 2 powi (e - 52))
           in if 1024 \<le> e \<or> (e = 1023 \<and> \<bar>m\<bar> = 2 ^ 53)
              then (if 0 < x then PosInf else NegInf)
              else Fin (of_int m * 2 powi (e - 52)))"

definition Number_isInteger :: "jsnum \<Rightarrow> bool" where
  "Number_isInteger n = (case n of Fin q \<Rightarrow> of_int \<lfloor>q\<rfloor> = q | _ \<Rightarrow> False)"

fun num_lt :: "jsnum \<Rightarrow> jsnum \<Rightarrow> bool" where
  \<comment> \<open>The operator \<open><\<close> on numbers; every comparison with NaN is false.\<close>
  "num_lt NaN _ = False"
| "num_lt _ NaN = False"
| "num_lt _ NegInf = False"
| "num_lt PosInf _ = False"
| "num_lt NegInf _ = True"
| "num_lt (Fin a) PosInf = True"
| "num_lt (Fin a) (Fin b) = (a < b)"

definition Number_toString :: "jsnum \<Rightarrow> string" where
  \<comment> \<open>\<open>Number::toString\<close> on the integers from 0 to 9, which is all that the template
      literal of \<open>normalizeCategorizationResult\<close> ever formats (its \<open>priority_score\<close> is an
      integer from 1 to 5 at that point); other numbers are outside this table.\<close>
  "Number_toString n =
     (case n of Fin q \<Rightarrow>
        (if of_int \<lfloor>q\<rfloor> = q \<and> 0 \<le> q \<and> q \<le> 9 then [char_of (48 + nat \<lfloor>q\<rfloor>)] else [])
      | _ \<Rightarrow> [])"

subsection \<open>Numeric literals in strings\<close>

definition signed_int :: "string \<Rightarrow> int option" where
  \<comment> \<open>An optional sign and at least one decimal digit, nothing else.\<close>
  "signed_int t =
     (let ds = (if prefix ''-'' t \<or> prefix ''+'' t then tl t else t)
      in if ds \<noteq> [] \<and> list_all is_digit ds
         then Some ((if prefix ''-'' t then - 1 else 1) * int_of_digits 10 ds)
         else None)"

definition exponent_part :: "string \<Rightarrow> int option" where
  \<comment> \<open>Nothing, or \<open>e\<close>/\<open>E\<close> followed by a signed integer.\<close>
  "exponent_part r =
     (case r of [] \<Rightarrow> Some 0
      | c # t \<Rightarrow> if c = CHR ''e'' \<or> c = CHR ''E'' then signed_int t else None)"

definition scan_decimal :: "string \<Rightarrow> (string \<times> string option \<times> int) option" where
  \<comment> \<open>Splits \<open>digits [. digits] [exponent]\<close> into the integer digits, the fraction digits
      (when there is a point) and the exponent; \<open>None\<close> when something else follows.\<close>
  "scan_decimal w =
     (let ip = takeWhile is_digit w; r1 = dropWhile is_digit w;
          fp = (case r1 of [] \<Rightarrow> None
                | c # t \<Rightarrow> if c = CHR ''.'' then Some (takeWhile is_digit t) else None);
          r2 = (case r1 of [] \<Rightarrow> []
                | c # t \<Rightarrow> if c = CHR ''.'' then dropWhile is_digit t else r1)
      in case exponent_part r2 of None \<Rightarrow> None | Some k \<Rightarrow> Some (ip, fp, k))"

definition decimal_value :: "string \<Rightarrow> string option \<Rightarrow> int \<Rightarrow> rat" where
  "decimal_value ip fp k =
     (let f = (case fp of None \<Rightarrow> [] | Some ds \<Rightarrow> ds)
      in of_int (int_of_digits 10 (ip @ f)) * 10 powi (k - int (length f)))"

definition radix_literal :: "string \<Rightarrow> int option" where
  \<comment> \<open>\<open>0x\<close>, \<open>0o\<close> and \<open>0b\<close> literals (either case of the letter), unsigned.\<close>
  "radix_literal t =
     (case t of
        z # r # ds \<Rightarrow>
          (let b = (if r = CHR ''x'' \<or> r = CHR ''X'' then 16
                    else if r = CHR ''o'' \<or> r = CHR ''O'' then 8
                    else if r = CHR ''b'' \<or> r = CHR ''B'' then 2 else 0)
           in if z = CHR ''0'' \<and> b \<noteq> 0 \<and> ds \<noteq> [] \<and> list_all (is_radix_digit b) ds
              then Some (int_of_digits b ds) else None)
      | _ \<Rightarrow> None)"

definition StrNumericLiteral :: "string \<Rightarrow> jsnum" where
  \<comment> \<open>The value of a text without surrounding white space as a StrNumericLiteral of
      ECMA-262, rounded; NaN when it is none.\<close>
  "StrNumericLiteral t =
     (case radix_literal t of
        Some n \<Rightarrow> to_double (of_int n)
      | None \<Rightarrow>
          (let neg = prefix ''-'' t;
               u = (if prefix ''-'' t \<or> prefix ''+'' t then tl t else t)
           in if u = ''Infinity'' then (if neg then NegInf else PosInf)
              else case scan_decimal u of
                None \<Rightarrow> NaN
              | Some (ip, fp, k) \<Rightarrow>
                  if ip = [] \<and> (fp = None \<or> fp = Some []) then NaN
                  else to_double ((if neg then - 1 else 1) * decimal_value ip fp k)))"

definition StringToNumber :: "ustring \<Rightarrow> jsnum" where
  \<comment> \<open>ECMA-262 StringToNumber: surrounding white space is dropped, the empty string is 0,
      a StringNumericLiteral is its rounded value, everything else is NaN. A numeric
      literal is made of ASCII characters, so a string that keeps a code unit above
      \<open>0xFF\<close> once trimmed is NaN.\<close>
  "StringToNumber s =
     (let t = trim_units s
      in if t = [] then Fin 0
         else case narrow t of None \<Rightarrow> NaN | Some a \<Rightarrow> StrNumericLiteral a)"

subsection \<open>Values\<close>

text \<open>
  The values \<open>JSON.parse\<close> can return, and \<open>undefined\<close>, which reading an absent property
  gives. An object is the list of its own properties; \<open>map_of\<close> reads one.
\<close>

datatype jsvalue =
    JUndefined
  | JNull
  | JBool bool
  | JNum jsnum
  | JStr ustring
  | JArr "jsvalue list"
  | JObj "(ustring \<times> jsvalue) list"

datatype js_error = TypeError

definition property :: "jsvalue \<Rightarrow> ustring \<Rightarrow> jsvalue" where
  \<comment> \<open>What \<open>v.name\<close> evaluates to on a value other than \<open>null\<close> and \<open>undefined\<close>, for a
      name that no built-in prototype defines (the program reads \<open>category\<close>,
      \<open>sentiment\<close>, \<open>priority_score\<close> and \<open>reasoning\<close>): an object gives its own property,
      and \<open>undefined\<close> when it has none of that name; every other value gives \<open>undefined\<close>.\<close>
  "property v name =
     (case v of
        JObj ms \<Rightarrow> (case map_of ms name of None \<Rightarrow> JUndefined | Some x \<Rightarrow> x)
      | _ \<Rightarrow> JUndefined)"

definition get_prop :: "jsvalue \<Rightarrow> ustring \<Rightarrow> js_error + jsvalue" where
  \<comment> \<open>\<open>v.name\<close>: reading a property of \<open>null\<close> or \<open>undefined\<close> throws a TypeError.\<close>
  "get_prop v name =
     (if v = JNull \<or> v = JUndefined then Inl TypeError else Inr (property v name))"

fun ToPrimitive_throws :: "jsvalue \<Rightarrow> bool" where
  \<comment> \<open>Converting a parsed value to a primitive calls its \<open>valueOf\<close> and \<open>toString\<close> when they
      are callable. No parsed value is callable, so an object with an own property named
      \<open>toString\<close> hides \<open>Object.prototype.toString\<close> and the conversion throws a TypeError
      (the inherited \<open>valueOf\<close> returns the object itself). An array converts by joining the
      strings of its elements, and throws when one of them does.\<close>
  "ToPrimitive_throws (JObj ms) = (map_of ms (js ''toString'') \<noteq> None)"
| "ToPrimitive_throws (JArr es) = list_ex ToPrimitive_throws es"
| "ToPrimitive_throws _ = False"

fun joined_number :: "jsvalue list \<Rightarrow> jsnum" where
  \<comment> \<open>\<open>StringToNumber\<close> of \<open>es.join(',')\<close>. With no element the string is empty; with one
      element it is that element's string (empty for \<open>null\<close> and \<open>undefined\<close>, the number's
      own digits for a number, which read back as the same number, \<open>true\<close>/\<open>false\<close> and
      \<open>[object Object]\<close> for a boolean and an object); with two or more it holds a comma,
      which no numeric literal does.\<close>
  "joined_number [] = Fin 0"
| "joined_number [JUndefined] = Fin 0"
| "joined_number [JNull] = Fin 0"
| "joined_number [JBool b] = NaN"
| "joined_number [JNum n] = n"
| "joined_number [JStr s] = StringToNumber s"
| "joined_number [JArr es] = joined_number es"
| "joined_number [JObj ms] = NaN"
| "joined_number (e # e' # es) = NaN"

fun Number :: "jsvalue \<Rightarrow> js_error + jsnum" where
  \<comment> \<open>\<open>Number(v)\<close>, ECMA-262 ToNumber.\<close>
  "Number JUndefined = Inr NaN"
| "Number JNull = Inr (Fin 0)"
| "Number (JBool b) = Inr (Fin (if b then 1 else 0))"
| "Number (JNum n) = Inr n"
| "Number (JStr s) = Inr (StringToNumber s)"
| "Number (JArr es) =
     (if ToPrimitive_throws (JArr es) then Inl TypeError else Inr (joined_number es))"
| "Number (JObj ms) =
     (if ToPrimitive_throws (JObj ms) then Inl TypeError else Inr NaN)"

subsection \<open>\<open>JSON.parse\<close>\<close>

text \<open>
  The JSON grammar of ECMA-404, in two passes: a lexer that walks the text once with a
  small state, then a parser that walks the tokens once with a stack of the open arrays
  and objects. \<open>None\<close> is the SyntaxError that \<open>JSON.parse\<close> throws.
  A literal or a number is lexed as the longest run of letters, digits, signs and points
  and then checked as a whole: in a valid text nothing of these can follow a literal or a
  number directly. Inside a string a character of the text is its own code unit, and an
  escape \<open>\\uXXXX\<close> is the code unit with these four hexadecimal digits.
\<close>

datatype token =
    TLBrace | TRBrace | TLBracket | TRBracket | TColon | TComma
  | TString ustring
  | TLiteral jsvalue

datatype lexmode =
    LIdle
  | LWord string
  | LStr ustring
  | LEsc ustring
  | LUni ustring string

definition is_json_ws :: "char \<Rightarrow> bool" where
  \<comment> \<open>JSON white space: TAB, LF, CR, SP.\<close>
  "is_json_ws c = ((of_char c :: nat) \<in> {9, 10, 13, 32})"

definition is_word_char :: "char \<Rightarrow> bool" where
  "is_word_char c = (is_digit c \<or> is_alpha c \<or> c = CHR ''+'' \<or> c = CHR ''-'' \<or> c = CHR ''.'')"

definition json_number :: "string \<Rightarrow> jsnum option" where
  \<comment> \<open>\<open>-? (0 | [1-9][0-9]*) (. [0-9]+)? ([eE] [+-]? [0-9]+)?\<close>\<close>
  "json_number w =
     (let neg = prefix ''-'' w; u = (if neg then tl w else w)
      in case scan_decimal u of
           None \<Rightarrow> None
         | Some (ip, fp, k) \<Rightarrow>
             if ip = [] \<or> (1 < length ip \<and> hd ip = CHR ''0'') \<or> fp = Some [] then None
             else Some (to_double ((if neg then - 1 else 1) * decimal_value ip fp k)))"

definition word_token :: "string \<Rightarrow> token option" where
  "word_token w =
     (if w = ''true'' then Some (TLiteral (JBool True))
      else if w = ''false'' then Some (TLiteral (JBool False))
      else if w = ''null'' then Some (TLiteral JNull)
      else map_option (\<lambda>n. TLiteral (JNum n)) (json_number w))"

definition punctuation :: "char \<Rightarrow> token option" where
  "punctuation c =
     (if c = CHR ''{'' then Some TLBrace else if c = CHR ''}'' then Some TRBrace
      else if c = CHR ''['' then Some TLBracket else if c = CHR '']'' then Some TRBracket
      else if c = CHR '':'' then Some TColon else if c = CHR '','' then Some TComma
      else None)"

definition lex_idle :: "char \<Rightarrow> (lexmode \<times> token list) option" where
  \<comment> \<open>Between tokens.\<close>
  "lex_idle c =
     (if is_json_ws c then Some (LIdle, [])
      else if c = CHR 0x22 then Some (LStr [], [])
      else if is_word_char c then Some (LWord [c], [])
      else map_option (\<lambda>t. (LIdle, [t])) (punctuation c))"

definition escape_char :: "char \<Rightarrow> char option" where
  "escape_char c =
     (if c = CHR 0x22 \<or> c = CHR 0x5C \<or> c = CHR ''/'' then Some c
      else if c = CHR ''b'' then Some (CHR 0x08)
      else if c = CHR ''f'' then Some (CHR 0x0C)
      else if c = CHR ''n'' then Some (CHR 0x0A)
      else if c = CHR ''r'' then Some (CHR 0x0D)
      else if c = CHR ''t'' then Some (CHR 0x09)
      else None)"

fun lex_step :: "lexmode \<Rightarrow> char \<Rightarrow> (lexmode \<times> token list) option" where
  \<comment> \<open>One character: the next mode and the tokens completed by it.\<close>
  "lex_step LIdle c = lex_idle c"
| "lex_step (LWord w) c =
     (if is_word_char c then Some (LWord (w @ [c]), [])
      else case word_token w of
             None \<Rightarrow> None
           | Some t \<Rightarrow> map_option (\<lambda>(m, ts). (m, t # ts)) (lex_idle c))"
| "lex_step (LStr s) c =
     (if c = CHR 0x22 then Some (LIdle, [TString s])
      else if c = CHR 0x5C then Some (LEsc s, [])
      else if (of_char c :: nat) < 32 then None
      else Some (LStr (s @ [of_char c]), []))"
| "lex_step (LEsc s) c =
     (if c = CHR ''u'' then Some (LUni s [], [])
      else map_option (\<lambda>x. (LStr (s @ [of_char x]), [])) (escape_char c))"
| "lex_step (LUni s h) c =
     (if \<not> is_radix_digit 16 c then None
      else if length h < 3 then Some (LUni s (h @ [c]), [])
      else Some (LStr (s @ [word_of_int (int_of_digits 16 (h @ [c]))]), []))"

fun lex_end :: "lexmode \<Rightarrow> token list option" where
  \<comment> \<open>At the end of the text: a pending word is completed, an open string is an error.\<close>
  "lex_end LIdle = Some []"
| "lex_end (LWord w) = map_option (\<lambda>t. [t]) (word_token w)"
| "lex_end _ = None"

fun lex_json :: "lexmode \<Rightarrow> string \<Rightarrow> token list option" where
  "lex_json m [] = lex_end m"
| "lex_json m (c # cs) =
     (case lex_step m c of
        None \<Rightarrow> None
      | Some (m', ts) \<Rightarrow> map_option (\<lambda>rest. ts @ rest) (lex_json m' cs))"

datatype frame =
    FArr "jsvalue list"
  | FObj "(ustring \<times> jsvalue) list" ustring

datatype pmode =
    PValue
  | PFirstElem
  | PFirstKey
  | PKey
  | PColon
  | PAfter
  | PDone jsvalue

fun complete :: "jsvalue \<Rightarrow> frame list \<Rightarrow> pmode \<times> frame list" where
  \<comment> \<open>A value is complete: it is the whole text, the next element of the open array, or
      the value of the pending key of the open object (a repeated key keeps its place and
      takes the later value).\<close>
  "complete v [] = (PDone v, [])"
| "complete v (FArr es # st) = (PAfter, FArr (es @ [v]) # st)"
| "complete v (FObj ms k # st) = (PAfter, FObj (AList.update k v ms) k # st)"

fun begin_value :: "token \<Rightarrow> frame list \<Rightarrow> (pmode \<times> frame list) option" where
  "begin_value (TLiteral v) st = Some (complete v st)"
| "begin_value (TString s) st = Some (complete (JStr s) st)"
| "begin_value TLBracket st = Some (PFirstElem, FArr [] # st)"
| "begin_value TLBrace st = Some (PFirstKey, FObj [] [] # st)"
| "begin_value _ st = None"

fun close_frame :: "token \<Rightarrow> frame list \<Rightarrow> (pmode \<times> frame list) option" where
  "close_frame TRBracket (FArr es # st) = Some (complete (JArr es) st)"
| "close_frame TRBrace (FObj ms k # st) = Some (complete (JObj ms) st)"
| "close_frame _ _ = None"

fun expect_key :: "token \<Rightarrow> frame list \<Rightarrow> (pmode \<times> frame list) option" where
  "expect_key (TString k) (FObj ms _ # st) = Some (PColon, FObj ms k # st)"
| "expect_key _ _ = None"

fun parse_step :: "pmode \<Rightarrow> frame list \<Rightarrow> token \<Rightarrow> (pmode \<times> frame list) option" where
  "parse_step PValue st t = begin_value t st"
| "parse_step PFirstElem st t =
     (if t = TRBracket then close_frame t st else begin_value t st)"
| "parse_step PFirstKey st t =
     (if t = TRBrace then close_frame t st else expect_key t st)"
| "parse_step PKey st t = expect_key t st"
| "parse_step PColon st t = (if t = TColon then Some (PValue, st) else None)"
| "parse_step PAfter st t =
     (if t = TComma
      then (case st of
              FArr es # _ \<Rightarrow> Some (PValue, st)
            | FObj ms k # _ \<Rightarrow> Some (PKey, st)
            | [] \<Rightarrow> None)
      else close_frame t st)"
| "parse_step (PDone v) st t = None"

fun parse_tokens :: "pmode \<Rightarrow> frame list \<Rightarrow> token list \<Rightarrow> jsvalue option" where
  "parse_tokens m st [] = (case m of PDone v \<Rightarrow> Some v | _ \<Rightarrow> None)"
| "parse_tokens m st (t # ts) =
     (case parse_step m st t of
        None \<Rightarrow> None
      | Some (m', st') \<Rightarrow> parse_tokens m' st' ts)"

definition JSON_parse :: "string \<Rightarrow> jsvalue option" where
  "JSON_parse text =
     (case lex_json LIdle text of None \<Rightarrow> None | Some ts \<Rightarrow> parse_tokens PValue [] ts)"

subsection \<open>The code-fence pattern\<close>

text \<open>
  \<open>parseJsonResponse\<close> matches its argument against
  \<^verbatim>\<open>/```(?:json)?\s*([\s\S]*?)```/\<close>.
  A match must start with three backticks, so the leftmost match starts at the first
  place where three backticks stand. From there the optional group takes \<open>json\<close> when
  it is there, \<open>\\s*\<close> takes all the white space that follows, and the lazy group grows
  up to the next three backticks. These greedy choices are the ones the matcher tries
  first, and nothing they consume holds a backtick, so when three backticks follow at all
  they succeed and fix the captured group; when none follow, no start further right can
  succeed either, and \<open>match\<close> returns \<open>null\<close>.
\<close>

fun split_fence :: "string \<Rightarrow> (string \<times> string) option" where
  \<comment> \<open>The text before and the text after the first three backticks.\<close>
  "split_fence [] = None"
| "split_fence (c # cs) =
     (if prefix ''```'' (c # cs) then Some ([], drop 3 (c # cs))
      else map_option (\<lambda>(before, after). (c # before, after)) (split_fence cs))"

definition codeBlockMatch :: "string \<Rightarrow> string option" where
  \<comment> \<open>Group 1 of the match, \<open>None\<close> for \<open>null\<close>.\<close>
  "codeBlockMatch content =
     (case split_fence content of
        None \<Rightarrow> None
      | Some (before, opened) \<Rightarrow>
          (let tagged = (if prefix ''json'' opened then drop 4 opened else opened);
               body = dropWhile is_js_space tagged
           in map_option fst (split_fence body)))"

subsection \<open>The program\<close>

record categorization =
  category :: ustring
  sentiment :: ustring
  priority_score :: jsnum
  reasoning :: ustring

definition jsonStr :: "string \<Rightarrow> string" where
  \<comment> \<open>The local variable \<open>jsonStr\<close> of \<open>parseJsonResponse\<close> when \<open>JSON.parse\<close> is called.\<close>
  "jsonStr content =
     (case codeBlockMatch content of
        Some group1 \<Rightarrow> trim group1
      | None \<Rightarrow> content)"

definition parseJsonResponse :: "string \<Rightarrow> jsvalue" where
  \<comment> \<open>The inner \<open>try\<close> turns the SyntaxError of \<open>JSON.parse\<close> into the empty object.\<close>
  "parseJsonResponse content =
     (case JSON_parse (jsonStr content) of Some v \<Rightarrow> v | None \<Rightarrow> JObj [])"

definition trimmed_string :: "jsvalue \<Rightarrow> ustring option" where
  \<comment> \<open>The test \<open>typeof v === 'string' && v.trim()\<close>: when it is truthy (a string that is
      not empty once trimmed), the value of \<open>v.trim()\<close>.\<close>
  "trimmed_string v =
     (case v of
        JStr text \<Rightarrow> if trim_units text \<noteq> [] then Some (trim_units text) else None
      | _ \<Rightarrow> None)"

definition synthesized_reasoning :: "ustring \<Rightarrow> ustring \<Rightarrow> jsnum \<Rightarrow> ustring" where
  \<comment> \<open>The template literal
      \<^verbatim>\<open>`Category: ${category}, Sentiment: ${sentiment}, Priority: ${priority_score}.`\<close>\<close>
  "synthesized_reasoning c s p =
     js ''Category: '' @ c @ js '', Sentiment: '' @ s @ js '', Priority: ''
     @ js (Number_toString p) @ js ''.''"

definition normalizeCategorizationResult :: "jsvalue \<Rightarrow> js_error + categorization" where
  "normalizeCategorizationResult parsed =
     (case get_prop parsed (js ''category'') of
        Inl e \<Rightarrow> Inl e
      | Inr c \<Rightarrow>
     (case get_prop parsed (js ''sentiment'') of
        Inl e \<Rightarrow> Inl e
      | Inr s \<Rightarrow>
     (case get_prop parsed (js ''priority_score'') of
        Inl e \<Rightarrow> Inl e
      | Inr p \<Rightarrow>
     (case Number p of
        Inl e \<Rightarrow> Inl e
      | Inr n \<Rightarrow>
     (case get_prop parsed (js ''reasoning'') of
        Inl e \<Rightarrow> Inl e
      | Inr r \<Rightarrow>
          (let category = (case trimmed_string c of Some text \<Rightarrow> text | None \<Rightarrow> js ''Unknown'');
               sentiment = (if s = JStr (js ''Angry'') then js ''Angry'' else js ''Neutral'');
               priority_score =
                 (if \<not> Number_isInteger n \<or> num_lt n (Fin 1) \<or> num_lt (Fin 5) n
                  then Fin 3 else n);
               reasoning =
                 (case trimmed_string r of
                    Some text \<Rightarrow> text
                  | None \<Rightarrow> synthesized_reasoning category sentiment priority_score)
           in Inr \<lparr>category = category, sentiment = sentiment,
                    priority_score = priority_score, reasoning = reasoning\<rparr>))))))"

definition angryIndicators :: "string list" where
  "angryIndicators =
     [''angry'', ''furious'', ''outraged'', ''unacceptable'', ''worst'', ''terrible'',
      ''horrible'', ''!!!'', ''urgent'', ''asap'', ''immediately'']"

definition reasoning_billing :: string where
  "reasoning_billing = ''Based on keywords related to payments and billing, this appears to be a billing-related inquiry.''"

definition reasoning_technical :: string where
  "reasoning_technical = ''This message describes technical difficulties or system errors that may require engineering review.''"

definition reasoning_feature :: string where
  "reasoning_feature = ''The customer is requesting enhancements or new functionality.''"

definition reasoning_inquiry :: string where
  "reasoning_inquiry = ''This appears to be a general question about the product or service.''"

definition reasoning_positive :: string where
  "reasoning_positive = ''The customer is expressing satisfaction or gratitude.''"

definition reasoning_ambiguous :: string where
  "reasoning_ambiguous = ''The message doesn'' @ [CHR 0x27] @ ''t contain clear indicators for automatic categorization. Manual review recommended.''"

definition isAngry :: "string \<Rightarrow> bool" where
  \<comment> \<open>\<open>message.match(/!/g)\<close> lists every exclamation mark of the message.\<close>
  "isAngry message =
     (list_ex (\<lambda>w. js_includes (toLowerCase message) w) angryIndicators
      \<or> 2 \<le> length (filter (\<lambda>c. c = CHR ''!'') message))"

definition getMockCategorization :: "string \<Rightarrow> categorization" where
  "getMockCategorization message =
     (let lowerMessage = toLowerCase message;
          sentiment = (if isAngry message then js ''Angry'' else js ''Neutral'');
          basePriority = (if isAngry message then 4 else 2 :: rat)
      in if js_includes lowerMessage ''bill'' \<or> js_includes lowerMessage ''payment''
            \<or> js_includes lowerMessage ''charge'' \<or> js_includes lowerMessage ''invoice''
            \<or> js_includes lowerMessage ''subscription'' \<or> js_includes lowerMessage ''refund''
         then \<lparr>category = js ''Billing Issue'', sentiment = sentiment,
               priority_score = Fin (min 5 (basePriority + 1)),
               reasoning = js reasoning_billing\<rparr>
         else if js_includes lowerMessage ''bug'' \<or> js_includes lowerMessage ''error''
            \<or> js_includes lowerMessage ''broken'' \<or> js_includes lowerMessage ''not working''
            \<or> js_includes lowerMessage ''crash'' \<or> js_includes lowerMessage ''down''
            \<or> js_includes lowerMessage ''server'' \<or> js_includes lowerMessage ''loading''
            \<or> js_includes lowerMessage ''issue''
         then \<lparr>category = js ''Technical Problem'', sentiment = sentiment,
               priority_score = Fin (if isAngry message then 5 else min 5 (basePriority + 2)),
               reasoning = js reasoning_technical\<rparr>
         else if js_includes lowerMessage ''feature'' \<or> js_includes lowerMessage ''improve''
            \<or> js_includes lowerMessage ''suggestion''
            \<or> js_includes lowerMessage ''would like to see''
            \<or> js_includes lowerMessage ''enhancement''
         then \<lparr>category = js ''Feature Request'', sentiment = sentiment,
               priority_score = Fin basePriority,
               reasoning = js reasoning_feature\<rparr>
         else if (js_includes lowerMessage ''thank'' \<or> js_includes lowerMessage ''thanks''
                  \<or> js_includes lowerMessage ''appreciate'')
                 \<and> \<not> js_includes lowerMessage ''but'' \<and> \<not> js_includes lowerMessage ''however''
         then \<lparr>category = js ''General Inquiry'', sentiment = js ''Neutral'',
               priority_score = Fin 1,
               reasoning = js reasoning_positive\<rparr>
         else if js_includes lowerMessage ''how'' \<or> js_includes lowerMessage ''what''
            \<or> js_includes lowerMessage ''?'' \<or> js_includes lowerMessage ''can i''
            \<or> js_includes lowerMessage ''is there''
         then \<lparr>category = js ''General Inquiry'', sentiment = sentiment,
               priority_score = Fin basePriority,
               reasoning = js reasoning_inquiry\<rparr>
         else \<lparr>category = js ''General Inquiry'', sentiment = sentiment,
               priority_score = Fin basePriority,
               reasoning = js reasoning_ambiguous\<rparr>)"

datatype remote_outcome =
    RequestFailed
  | Reply string

definition categorizeMessage :: "string \<Rightarrow> remote_outcome \<Rightarrow> categorization" where
  \<comment> \<open>The awaited request either rejects or resolves with a reply whose
      \<open>choices[0].message.content\<close> is the given text. Whatever is thrown inside the
      \<open>try\<close> block, by the request or by the normalisation, reaches the one \<open>catch\<close>.\<close>
  "categorizeMessage message outcome =
     (case outcome of
        RequestFailed \<Rightarrow> getMockCategorization message
      | Reply text \<Rightarrow>
          (let content = trim text;
               parsed = parseJsonResponse content
           in case normalizeCategorizationResult parsed of
                Inr result \<Rightarrow> result
              | Inl error \<Rightarrow> getMockCategorization message))"

subsection \<open>Notions used by the properties\<close>

definition canonical_categories :: "ustring set" where
  "canonical_categories =
     {js ''Billing Issue'', js ''Technical Problem'', js ''Feature Request'',
      js ''General Inquiry'', js ''Unknown''}"

definition takes_fallback :: "remote_outcome \<Rightarrow> bool" where
  \<comment> \<open>The \<open>catch\<close> block of \<open>categorizeMessage\<close> runs: the request failed, or the
      normalisation of the parsed reply threw.\<close>
  "takes_fallback outcome =
     (case outcome of
        RequestFailed \<Rightarrow> True
      | Reply text \<Rightarrow> isl (normalizeCategorizationResult (parseJsonResponse (trim text))))"

definition result_value :: "categorization \<Rightarrow> jsvalue" where
  \<comment> \<open>The object \<open>{category, sentiment, priority_score, reasoning}\<close> that
      \<open>normalizeCategorizationResult\<close> returns, as a value it can be given again.\<close>
  "result_value r =
     JObj [(js ''category'', JStr (category r)), (js ''sentiment'', JStr (sentiment r)),
           (js ''priority_score'', JNum (priority_score r)),
           (js ''reasoning'', JStr (reasoning r))]"

definition fenced_json :: "string \<Rightarrow> string" where
  \<comment> \<open>A text in a fenced code block tagged \<open>json\<close>: the opening fence and the tag on a
      line, the text, and the closing fence on a line.\<close>
  "fenced_json j = ''```json'' @ [CHR 0x0A] @ j @ [CHR 0x0A] @ ''```''"

definition default_result :: categorization where
  \<comment> \<open>What normalisation makes of an object without any usable field.\<close>
  "default_result =
     \<lparr>category = js ''Unknown'', sentiment = js ''Neutral'', priority_score = Fin 3,
      reasoning = js ''Category: Unknown, Sentiment: Neutral, Priority: 3.''\<rparr>"

section \<open>Properties\<close>

subsection \<open>Strings and numbers\<close>

lemma integer_in_range_cases:
  assumes "Number_isInteger n" "\<not> num_lt n (Fin 1)" "\<not> num_lt (Fin 5) n"
  shows "n \<in> {Fin 1, Fin 2, Fin 3, Fin 4, Fin 5}"
proof (cases n)
  case (Fin q)
  from Fin assms obtain k where qk: "q = of_int k"
    by (auto simp: Number_isInteger_def)
  from Fin assms have q: "1 \<le> q" "q \<le> 5" by simp_all
  from q qk have "1 \<le> k" "k \<le> 5" by simp_all
  then have "k = 1 \<or> k = 2 \<or> k = 3 \<or> k = 4 \<or> k = 5" by presburger
  with qk Fin show ?thesis by auto
qed (use assms in \<open>simp_all add: Number_isInteger_def\<close>)

lemma trim_units_fixed:
  assumes "s \<noteq> []" "\<not> is_space_unit (hd s)" "\<not> is_space_unit (last s)"
  shows "trim_units s = s"
proof -
  from assms have "dropWhile is_space_unit s = s"
    by (cases s) simp_all
  moreover from assms have "dropWhile is_space_unit (rev s) = rev s"
    by (cases "rev s") (simp_all add: last_rev [symmetric] hd_rev)
  ultimately show ?thesis by (simp add: trim_units_def)
qed

lemma dropWhile_keeps_last:
  "xs \<noteq> [] \<Longrightarrow> \<not> P (last xs) \<Longrightarrow> dropWhile P xs \<noteq> [] \<and> last (dropWhile P xs) = last xs"
  by (induction xs) auto

lemma trim_units_edges:
  assumes "trim_units s \<noteq> []"
  shows "\<not> is_space_unit (hd (trim_units s))" "\<not> is_space_unit (last (trim_units s))"
proof -
  let ?a = "dropWhile is_space_unit s"
  let ?b = "dropWhile is_space_unit (rev ?a)"
  from assms have b: "?b \<noteq> []" by (simp add: trim_units_def)
  then have "\<not> is_space_unit (hd ?b)" by (rule hd_dropWhile)
  then show "\<not> is_space_unit (last (trim_units s))" using b by (simp add: trim_units_def last_rev)
  have a: "?a \<noteq> []"
  proof
    assume e: "?a = []"
    have "?b = []" unfolding e by simp
    with b show False by contradiction
  qed
  then have ha: "\<not> is_space_unit (hd ?a)" by (rule hd_dropWhile)
  from a ha have "rev ?a \<noteq> []" "\<not> is_space_unit (last (rev ?a))"
    by (simp_all add: last_rev)
  then have "last ?b = last (rev ?a)" by (simp add: dropWhile_keeps_last)
  with a b have "hd (rev ?b) = hd ?a" by (simp add: hd_rev last_rev)
  with ha show "\<not> is_space_unit (hd (trim_units s))" by (simp add: trim_units_def)
qed

lemma trim_units_idem: "trim_units (trim_units s) = trim_units s"
proof (cases "trim_units s = []")
  case True
  moreover have "trim_units [] = []" by (simp add: trim_units_def)
  ultimately show ?thesis by simp
next
  case False
  then show ?thesis by (intro trim_units_fixed trim_units_edges)
qed

subsection \<open>The heuristic on given messages\<close>

text \<open>
  C7. On the heuristic path the message \<open>My bill is wrong and the app keeps crashing!!!\<close>
  contains both the billing keyword \<open>bill\<close> and the technical keyword \<open>crash\<close>; the
  billing rule, tested first, decides: the category is \<open>Billing Issue\<close>. The three
  exclamation marks make the message angry, so the sentiment is \<open>Angry\<close> and the
  priority is \<open>min(5, 4 + 1) = 5\<close>.
\<close>

theorem heuristic_billing_before_technical:
  "js_includes (toLowerCase ''My bill is wrong and the app keeps crashing!!!'') ''bill''
   \<and> js_includes (toLowerCase ''My bill is wrong and the app keeps crashing!!!'') ''crash''
   \<and> js_includes (toLowerCase ''My bill is wrong and the app keeps crashing!!!'') ''!!!''
   \<and> isAngry ''My bill is wrong and the app keeps crashing!!!''
   \<and> getMockCategorization ''My bill is wrong and the app keeps crashing!!!''
       = \<lparr>category = js ''Billing Issue'', sentiment = js ''Angry'',
          priority_score = Fin (min 5 (4 + 1)), reasoning = js reasoning_billing\<rparr>
   \<and> priority_score (getMockCategorization ''My bill is wrong and the app keeps crashing!!!'')
       = Fin 5"
  by code_simp

text \<open>
  C9. On the heuristic path the empty message matches no rule and gets the default
  result: category \<open>General Inquiry\<close>, sentiment \<open>Neutral\<close>, priority 2 and the
  manual-review reasoning.
\<close>

theorem heuristic_empty_message:
  "getMockCategorization '''' =
     \<lparr>category = js ''General Inquiry'', sentiment = js ''Neutral'', priority_score = Fin 2,
      reasoning = js reasoning_ambiguous\<rparr>
   \<and> reasoning_ambiguous = ''The message doesn'' @ [CHR 0x27] @ ''t contain clear indicators for automatic categorization. Manual review recommended.''"
  by code_simp

subsection \<open>The gratitude rule\<close>

text \<open>
  C8. On the heuristic path, a message whose lower-cased text holds no billing, technical
  or feature keyword, holds \<open>thank\<close>, \<open>thanks\<close> or \<open>appreciate\<close>, and holds neither
  \<open>but\<close> nor \<open>however\<close>, gets category \<open>General Inquiry\<close>, sentiment \<open>Neutral\<close>
  (whether or not anger was detected) and priority 1.
\<close>

theorem gratitude_rule:
  assumes "\<forall>w \<in> set [''bill'', ''payment'', ''charge'', ''invoice'', ''subscription'', ''refund''].
             \<not> js_includes (toLowerCase message) w"
    and "\<forall>w \<in> set [''bug'', ''error'', ''broken'', ''not working'', ''crash'', ''down'',
                     ''server'', ''loading'', ''issue''].
             \<not> js_includes (toLowerCase message) w"
    and "\<forall>w \<in> set [''feature'', ''improve'', ''suggestion'', ''would like to see'',
                     ''enhancement''].
             \<not> js_includes (toLowerCase message) w"
    and "js_includes (toLowerCase message) ''thank'' \<or> js_includes (toLowerCase message) ''thanks''
         \<or> js_includes (toLowerCase message) ''appreciate''"
    and "\<not> js_includes (toLowerCase message) ''but''"
    and "\<not> js_includes (toLowerCase message) ''however''"
  shows "getMockCategorization message =
           \<lparr>category = js ''General Inquiry'', sentiment = js ''Neutral'', priority_score = Fin 1,
            reasoning = js reasoning_positive\<rparr>"
  using assms by (simp add: getMockCategorization_def Let_def)

theorem gratitude_rule_witness:
  "isAngry ''THANKS!!! I appreciate it''
   \<and> js_includes (toLowerCase ''THANKS!!! I appreciate it'') ''thanks''
   \<and> getMockCategorization ''THANKS!!! I appreciate it'' =
         \<lparr>category = js ''General Inquiry'', sentiment = js ''Neutral'', priority_score = Fin 1,
          reasoning = js reasoning_positive\<rparr>"
proof -
  let ?m = "''THANKS!!! I appreciate it''"
  have h1: "\<forall>w \<in> set [''bill'', ''payment'', ''charge'', ''invoice'', ''subscription'', ''refund''].
             \<not> js_includes (toLowerCase ?m) w"
    by code_simp
  have h2: "\<forall>w \<in> set [''bug'', ''error'', ''broken'', ''not working'', ''crash'', ''down'',
                     ''server'', ''loading'', ''issue''].
             \<not> js_includes (toLowerCase ?m) w"
    by code_simp
  have h3: "\<forall>w \<in> set [''feature'', ''improve'', ''suggestion'', ''would like to see'',
                     ''enhancement''].
             \<not> js_includes (toLowerCase ?m) w"
    by code_simp
  have h4: "js_includes (toLowerCase ?m) ''thank'' \<or> js_includes (toLowerCase ?m) ''thanks''
         \<or> js_includes (toLowerCase ?m) ''appreciate''"
    by code_simp
  have h5: "\<not> js_includes (toLowerCase ?m) ''but''" by code_simp
  have h6: "\<not> js_includes (toLowerCase ?m) ''however''" by code_simp
  have angry: "isAngry ?m" by code_simp
  have thanks: "js_includes (toLowerCase ?m) ''thanks''" by code_simp
  from gratitude_rule [OF h1 h2 h3 h4 h5 h6] angry thanks show ?thesis by simp
qed

subsection \<open>Normalisation\<close>

lemma js_error_eq: "(e :: js_error) = e'"
  by (cases e, cases e') simp

lemma in_range_iff:
  "(Number_isInteger n \<and> \<not> num_lt n (Fin 1) \<and> \<not> num_lt (Fin 5) n)
   \<longleftrightarrow> n \<in> {Fin 1, Fin 2, Fin 3, Fin 4, Fin 5}"
proof
  assume "Number_isInteger n \<and> \<not> num_lt n (Fin 1) \<and> \<not> num_lt (Fin 5) n"
  then show "n \<in> {Fin 1, Fin 2, Fin 3, Fin 4, Fin 5}"
    using integer_in_range_cases [of n] by blast
next
  assume "n \<in> {Fin 1, Fin 2, Fin 3, Fin 4, Fin 5}"
  then show "Number_isInteger n \<and> \<not> num_lt n (Fin 1) \<and> \<not> num_lt (Fin 5) n"
    by (auto simp: Number_isInteger_def)
qed

lemma Number_toString_digits:
  "Number_toString (Fin 1) = ''1''" "Number_toString (Fin 2) = ''2''"
  "Number_toString (Fin 3) = ''3''" "Number_toString (Fin 4) = ''4''"
  "Number_toString (Fin 5) = ''5''"
  by code_simp+

lemma Number_throws_iff: "Number p = Inl e \<longleftrightarrow> ToPrimitive_throws p"
  by (cases p) (auto simp: js_error_eq [of TypeError e])

lemma Number_returns: "\<not> ToPrimitive_throws p \<Longrightarrow> \<exists>n. Number p = Inr n"
  by (cases p) auto

lemma normalize_throws_iff:
  "normalizeCategorizationResult parsed = Inl e
   \<longleftrightarrow> parsed = JNull \<or> parsed = JUndefined
        \<or> ToPrimitive_throws (property parsed (js ''priority_score''))"
proof (cases "parsed = JNull \<or> parsed = JUndefined")
  case True
  then show ?thesis
    by (auto simp: normalizeCategorizationResult_def get_prop_def js_error_eq [of TypeError e])
next
  case False
  show ?thesis
  proof (cases "Number (property parsed (js ''priority_score''))")
    case (Inl e')
    moreover from Inl have "ToPrimitive_throws (property parsed (js ''priority_score''))"
      by (simp add: Number_throws_iff)
    ultimately show ?thesis
      using False
      by (simp add: normalizeCategorizationResult_def get_prop_def js_error_eq [of e' e])
  next
    case (Inr n)
    then have "\<not> ToPrimitive_throws (property parsed (js ''priority_score''))"
      using Number_throws_iff [of "property parsed (js ''priority_score'')" TypeError] by simp
    with False Inr show ?thesis
      by (simp add: normalizeCategorizationResult_def get_prop_def Let_def)
  qed
qed

lemma normalize_value:
  assumes "parsed \<noteq> JNull" "parsed \<noteq> JUndefined"
    and "Number (property parsed (js ''priority_score'')) = Inr n"
  shows "normalizeCategorizationResult parsed =
     Inr (let category = (case trimmed_string (property parsed (js ''category'')) of
                            Some text \<Rightarrow> text | None \<Rightarrow> js ''Unknown'');
              sentiment = (if property parsed (js ''sentiment'') = JStr (js ''Angry'')
                           then js ''Angry'' else js ''Neutral'');
              priority_score = (if n \<in> {Fin 1, Fin 2, Fin 3, Fin 4, Fin 5} then n else Fin 3)
          in \<lparr>category = category, sentiment = sentiment, priority_score = priority_score,
              reasoning = (case trimmed_string (property parsed (js ''reasoning'')) of
                             Some text \<Rightarrow> text
                           | None \<Rightarrow> synthesized_reasoning category sentiment priority_score)\<rparr>)"
proof -
  have r: "(if \<not> Number_isInteger n \<or> num_lt n (Fin 1) \<or> num_lt (Fin 5) n then Fin 3 else n)
           = (if n \<in> {Fin 1, Fin 2, Fin 3, Fin 4, Fin 5} then n else Fin 3)"
    unfolding in_range_iff [symmetric] by simp
  have gp: "get_prop parsed name = Inr (property parsed name)" for name
    using assms by (simp add: get_prop_def)
  show ?thesis
    unfolding normalizeCategorizationResult_def gp assms(3) sum.case Let_def r ..
qed

lemma trimmed_string_Some:
  assumes "trimmed_string v = Some text"
  shows "text \<noteq> []" "trim_units text = text"
  using assms by (auto simp: trimmed_string_def trim_units_idem split: jsvalue.splits if_splits)

lemma trimmed_string_JStr:
  "text \<noteq> [] \<Longrightarrow> trim_units text = text \<Longrightarrow> trimmed_string (JStr text) = Some text"
  by (simp add: trimmed_string_def)

lemma synthesized_reasoning_trimmed:
  "synthesized_reasoning c s p \<noteq> []"
  "trim_units (synthesized_reasoning c s p) = synthesized_reasoning c s p"
proof -
  show ne: "synthesized_reasoning c s p \<noteq> []"
    by (simp add: synthesized_reasoning_def js_def)
  have "hd (synthesized_reasoning c s p) = of_char CHR ''C''"
    "last (synthesized_reasoning c s p) = of_char CHR ''.''"
    by (simp_all add: synthesized_reasoning_def js_def)
  then show "trim_units (synthesized_reasoning c s p) = synthesized_reasoning c s p"
    using ne by (intro trim_units_fixed) (simp_all add: is_space_unit_def)
qed

lemma trim_Unknown: "trim_units (js ''Unknown'') = js ''Unknown''"
  by (rule trim_units_fixed) (simp_all add: is_space_unit_def js_def)

lemma normalize_result_shape:
  assumes "normalizeCategorizationResult parsed = Inr r"
  shows "category r \<noteq> []" "trim_units (category r) = category r"
    and "sentiment r = js ''Angry'' \<or> sentiment r = js ''Neutral''"
    and "priority_score r \<in> {Fin 1, Fin 2, Fin 3, Fin 4, Fin 5}"
    and "reasoning r \<noteq> []" "trim_units (reasoning r) = reasoning r"
proof -
  from assms have ok: "parsed \<noteq> JNull" "parsed \<noteq> JUndefined"
    and "\<not> ToPrimitive_throws (property parsed (js ''priority_score''))"
    using normalize_throws_iff [of parsed TypeError] by auto
  then obtain n where n: "Number (property parsed (js ''priority_score'')) = Inr n"
    using Number_returns by blast
  note r = normalize_value [OF ok n, unfolded assms Let_def sum.inject]
  show "category r \<noteq> []"
    by (subst r) (auto simp: trimmed_string_Some js_def split: option.splits)
  show "trim_units (category r) = category r"
    by (subst (1 2) r) (auto simp: trimmed_string_Some trim_Unknown split: option.splits)
  show "sentiment r = js ''Angry'' \<or> sentiment r = js ''Neutral''"
    by (subst (1 2) r) simp
  show "priority_score r \<in> {Fin 1, Fin 2, Fin 3, Fin 4, Fin 5}"
    by (subst r) simp
  show "reasoning r \<noteq> []"
    by (subst r) (auto simp: trimmed_string_Some synthesized_reasoning_trimmed split: option.splits)
  show "trim_units (reasoning r) = reasoning r"
    by (subst (1 2) r)
       (auto simp: trimmed_string_Some synthesized_reasoning_trimmed split: option.splits)
qed

lemma normalize_result_value:
  assumes "category r \<noteq> []" "trim_units (category r) = category r"
    and "sentiment r = js ''Angry'' \<or> sentiment r = js ''Neutral''"
    and "priority_score r \<in> {Fin 1, Fin 2, Fin 3, Fin 4, Fin 5}"
    and "reasoning r \<noteq> []" "trim_units (reasoning r) = reasoning r"
  shows "normalizeCategorizationResult (result_value r) = Inr r"
proof -
  have props: "property (result_value r) (js ''category'') = JStr (category r)"
    "property (result_value r) (js ''sentiment'') = JStr (sentiment r)"
    "property (result_value r) (js ''priority_score'') = JNum (priority_score r)"
    "property (result_value r) (js ''reasoning'') = JStr (reasoning r)"
    by (simp_all add: property_def result_value_def js_def)
  have ok: "result_value r \<noteq> JNull" "result_value r \<noteq> JUndefined"
    by (simp_all add: result_value_def)
  have n: "Number (property (result_value r) (js ''priority_score'')) = Inr (priority_score r)"
    by (simp add: props)
  have "normalizeCategorizationResult (result_value r) =
          Inr \<lparr>category = category r, sentiment = sentiment r,
               priority_score = priority_score r, reasoning = reasoning r\<rparr>"
    unfolding normalize_value [OF ok n] props Let_def
    using assms by (auto simp: trimmed_string_JStr js_def)
  then show ?thesis by simp
qed

text \<open>
  C3. The claim is that for every parsed object normalisation returns a result whose
  category, sentiment and reasoning follow the three field rules. The code does not
  return on every parsed object: when the \<open>priority_score\<close> of the object is itself an
  object with an own property \<open>toString\<close>, \<open>Number(parsed.priority_score)\<close> throws a
  TypeError and no result is made, although the code defaults every other unusable
  priority to 3 (an object with an own \<open>valueOf\<close> and the empty object among them).
\<close>

theorem normalize_throws_on_toString_priority:
  \<open>JSON_parse ''{"priority_score":{"toString":1}}''
     = Some (JObj [(js ''priority_score'', JObj [(js ''toString'', JNum (Fin 1))])])
   \<and> normalizeCategorizationResult
        (JObj [(js ''priority_score'', JObj [(js ''toString'', JNum (Fin 1))])]) = Inl TypeError
   \<and> normalizeCategorizationResult
        (JObj [(js ''priority_score'', JObj [(js ''valueOf'', JNum (Fin 5))])]) = Inr default_result
   \<and> normalizeCategorizationResult (JObj [(js ''priority_score'', JObj [])]) = Inr default_result\<close>
  by code_simp

theorem normalize_throws_on_toString_priority_witness:
  "isl (normalizeCategorizationResult
          (JObj [(js ''priority_score'', JObj [(js ''toString'', JNum (Fin 1))])]))
   \<and> projr (normalizeCategorizationResult
          (JObj [(js ''priority_score'', JObj [(js ''valueOf'', JNum (Fin 5))])])) = default_result"
  using normalize_throws_on_toString_priority by simp

text \<open>
  Wherever normalisation returns, the three field rules hold. For every parsed value
  other than \<open>null\<close> whose \<open>priority_score\<close> converts to a number without throwing,
  normalisation returns a result whose category is the trimmed parsed category when that
  is a string that is not empty once trimmed, and \<open>Unknown\<close> otherwise; whose sentiment
  is \<open>Angry\<close> exactly when the parsed sentiment is the string \<open>Angry\<close>, and \<open>Neutral\<close>
  otherwise; and whose reasoning is the trimmed parsed reasoning when that is a string
  that is not empty once trimmed, and otherwise the string
  \<open>Category: c, Sentiment: s, Priority: p.\<close> made of the result's own category,
  sentiment and priority digit.
\<close>

lemma normalized_fields:
  assumes "parsed \<noteq> JNull" "parsed \<noteq> JUndefined"
    and "\<not> ToPrimitive_throws (property parsed (js ''priority_score''))"
  shows "\<exists>r. normalizeCategorizationResult parsed = Inr r
     \<and> category r =
           (case property parsed (js ''category'') of
              JStr text \<Rightarrow> if trim_units text = [] then js ''Unknown'' else trim_units text
            | _ \<Rightarrow> js ''Unknown'')
     \<and> sentiment r = (if property parsed (js ''sentiment'') = JStr (js ''Angry'')
                      then js ''Angry'' else js ''Neutral'')
     \<and> (\<exists>digit \<in> set ''12345''.
           Number_toString (priority_score r) = [digit]
           \<and> reasoning r =
               (let synthesized = js ''Category: '' @ category r @ js '', Sentiment: ''
                                  @ sentiment r @ js '', Priority: '' @ js [digit] @ js ''.''
                in case property parsed (js ''reasoning'') of
                     JStr text \<Rightarrow> if trim_units text = [] then synthesized else trim_units text
                   | _ \<Rightarrow> synthesized))"
proof -
  from assms(3) obtain n where n: "Number (property parsed (js ''priority_score'')) = Inr n"
    using Number_returns by blast
  define r where "r = (case normalizeCategorizationResult parsed of Inr x \<Rightarrow> x)"
  have nr: "normalizeCategorizationResult parsed = Inr r"
    by (simp add: r_def normalize_value [OF assms(1,2) n])
  note v = normalize_value [OF assms(1,2) n, unfolded nr Let_def sum.inject]
  have c: "category r =
           (case property parsed (js ''category'') of
              JStr text \<Rightarrow> if trim_units text = [] then js ''Unknown'' else trim_units text
            | _ \<Rightarrow> js ''Unknown'')"
    by (subst v) (simp add: trimmed_string_def split: jsvalue.splits)
  have s: "sentiment r = (if property parsed (js ''sentiment'') = JStr (js ''Angry'')
                          then js ''Angry'' else js ''Neutral'')"
    by (subst v) simp
  have "priority_score r \<in> {Fin 1, Fin 2, Fin 3, Fin 4, Fin 5}"
    using nr by (rule normalize_result_shape)
  then have "\<exists>digit \<in> set ''12345''. Number_toString (priority_score r) = [digit]"
    by (elim insertE emptyE) (simp_all add: Number_toString_digits)
  then obtain digit where d: "digit \<in> set ''12345''"
    "Number_toString (priority_score r) = [digit]"
    by blast
  have "reasoning r =
          (case trimmed_string (property parsed (js ''reasoning'')) of
             Some text \<Rightarrow> text
           | None \<Rightarrow> synthesized_reasoning (category r) (sentiment r) (priority_score r))"
    by (simp add: v split: option.splits)
  then have "reasoning r =
               (let synthesized = js ''Category: '' @ category r @ js '', Sentiment: ''
                                  @ sentiment r @ js '', Priority: '' @ js [digit] @ js ''.''
                in case property parsed (js ''reasoning'') of
                     JStr text \<Rightarrow> if trim_units text = [] then synthesized else trim_units text
                   | _ \<Rightarrow> synthesized)"
    by (simp add: trimmed_string_def synthesized_reasoning_def d Let_def split: jsvalue.splits)
  with nr c s d show ?thesis by blast
qed

text \<open>
  C4, as stated, fails: a parsed \<open>priority_score\<close> that is not an integer is not always
  replaced by 3. The value is first converted by \<open>Number\<close>, so the string \<open>4\<close> is kept
  as the number 4 and \<open>true\<close> as the number 1.
\<close>

theorem normalized_priority_counterexample:
  "normalizeCategorizationResult (JObj [(js ''priority_score'', JStr (js ''4''))]) =
     Inr \<lparr>category = js ''Unknown'', sentiment = js ''Neutral'', priority_score = Fin 4,
          reasoning = js ''Category: Unknown, Sentiment: Neutral, Priority: 4.''\<rparr>
   \<and> normalizeCategorizationResult (JObj [(js ''priority_score'', JBool True)]) =
     Inr \<lparr>category = js ''Unknown'', sentiment = js ''Neutral'', priority_score = Fin 1,
          reasoning = js ''Category: Unknown, Sentiment: Neutral, Priority: 1.''\<rparr>"
  by code_simp

text \<open>
  C4, amended. Normalisation converts the parsed \<open>priority_score\<close> with \<open>Number\<close>. For
  every parsed value whose converted number is not an integer or lies outside \<open>[1,5]\<close>
  (the number 0 and the string \<open>high\<close> among them), it sets \<open>priority_score\<close> to 3; for
  every parsed value whose converted number is an integer in \<open>[1,5]\<close>, it keeps that
  number.
\<close>

theorem normalized_priority:
  assumes "parsed \<noteq> JNull" "parsed \<noteq> JUndefined"
    and "Number (property parsed (js ''priority_score'')) = Inr n"
  shows "\<exists>r. normalizeCategorizationResult parsed = Inr r
     \<and> priority_score r = (if n \<in> {Fin 1, Fin 2, Fin 3, Fin 4, Fin 5} then n else Fin 3)"
  by (simp add: normalize_value [OF assms] Let_def)

theorem normalized_priority_witness:
  "Number (property (JObj [(js ''priority_score'', JNum (Fin 0))]) (js ''priority_score'')) = Inr (Fin 0)
   \<and> (\<exists>r. normalizeCategorizationResult (JObj [(js ''priority_score'', JNum (Fin 0))]) = Inr r
          \<and> priority_score r = Fin 3)
   \<and> Number (property (JObj [(js ''priority_score'', JStr (js ''high''))]) (js ''priority_score'')) = Inr NaN
   \<and> (\<exists>r. normalizeCategorizationResult (JObj [(js ''priority_score'', JStr (js ''high''))]) = Inr r
          \<and> priority_score r = Fin 3)
   \<and> Number (property (JObj [(js ''priority_score'', JNum (Fin 5))]) (js ''priority_score'')) = Inr (Fin 5)
   \<and> (\<exists>r. normalizeCategorizationResult (JObj [(js ''priority_score'', JNum (Fin 5))]) = Inr r
          \<and> priority_score r = Fin 5)"
proof -
  have zero: "Number (property (JObj [(js ''priority_score'', JNum (Fin 0))]) (js ''priority_score''))
              = Inr (Fin 0)"
    by (simp add: property_def)
  have high: "Number (property (JObj [(js ''priority_score'', JStr (js ''high''))]) (js ''priority_score''))
              = Inr NaN"
    by code_simp
  have five: "Number (property (JObj [(js ''priority_score'', JNum (Fin 5))]) (js ''priority_score''))
              = Inr (Fin 5)"
    by (simp add: property_def)
  from normalized_priority [OF _ _ zero] normalized_priority [OF _ _ high]
    normalized_priority [OF _ _ five] zero high five
  show ?thesis by simp
qed

text \<open>
  C5. Normalisation is idempotent: normalising the object that a first normalisation
  returned gives that object again (and when the first normalisation throws, no second
  one runs and the outcome is that same error).
\<close>

theorem normalize_idempotent:
  "(case normalizeCategorizationResult x of
      Inl e \<Rightarrow> Inl e
    | Inr r \<Rightarrow> normalizeCategorizationResult (result_value r))
   = normalizeCategorizationResult x"
proof (cases "normalizeCategorizationResult x")
  case (Inl e)
  then show ?thesis by simp
next
  case (Inr r)
  then have "normalizeCategorizationResult (result_value r) = Inr r"
    by (intro normalize_result_value normalize_result_shape)
  with Inr show ?thesis by simp
qed

theorem normalize_idempotent_witness:
  "normalizeCategorizationResult
     (JObj [(js ''category'', JStr (js '' Refund '')), (js ''priority_score'', JStr (js ''4''))])
     = Inr \<lparr>category = js ''Refund'', sentiment = js ''Neutral'', priority_score = Fin 4,
            reasoning = js ''Category: Refund, Sentiment: Neutral, Priority: 4.''\<rparr>
   \<and> normalizeCategorizationResult
       (result_value \<lparr>category = js ''Refund'', sentiment = js ''Neutral'', priority_score = Fin 4,
                      reasoning = js ''Category: Refund, Sentiment: Neutral, Priority: 4.''\<rparr>)
     = Inr \<lparr>category = js ''Refund'', sentiment = js ''Neutral'', priority_score = Fin 4,
            reasoning = js ''Category: Refund, Sentiment: Neutral, Priority: 4.''\<rparr>"
proof -
  have once: "normalizeCategorizationResult
     (JObj [(js ''category'', JStr (js '' Refund '')), (js ''priority_score'', JStr (js ''4''))])
     = Inr \<lparr>category = js ''Refund'', sentiment = js ''Neutral'', priority_score = Fin 4,
            reasoning = js ''Category: Refund, Sentiment: Neutral, Priority: 4.''\<rparr>"
    by code_simp
  from normalize_idempotent
    [of "JObj [(js ''category'', JStr (js '' Refund '')), (js ''priority_score'', JStr (js ''4''))]"] once
  show ?thesis by simp
qed

subsection \<open>\<open>JSON.parse\<close> never returns \<open>undefined\<close>\<close>

lemma word_token_defined: "word_token w = Some t \<Longrightarrow> t \<noteq> TLiteral JUndefined"
  by (auto simp: word_token_def split: if_splits)

lemma lex_idle_defined: "lex_idle c = Some (m, ts) \<Longrightarrow> TLiteral JUndefined \<notin> set ts"
  by (auto simp: lex_idle_def punctuation_def split: if_splits)

lemma lex_step_defined: "lex_step m c = Some (m', ts) \<Longrightarrow> TLiteral JUndefined \<notin> set ts"
proof (cases m)
  case LIdle
  then show "lex_step m c = Some (m', ts) \<Longrightarrow> TLiteral JUndefined \<notin> set ts"
    by (simp add: lex_idle_defined)
next
  case (LWord w)
  then show "lex_step m c = Some (m', ts) \<Longrightarrow> TLiteral JUndefined \<notin> set ts"
    by (auto split: if_splits option.splits dest: word_token_defined lex_idle_defined)
qed (auto split: if_splits)

lemma lex_json_defined: "lex_json m s = Some ts \<Longrightarrow> TLiteral JUndefined \<notin> set ts"
proof (induction s arbitrary: m ts)
  case Nil
  then show ?case
    by (cases m) (auto dest: word_token_defined)
next
  case (Cons c cs)
  then show ?case
    by (auto split: option.splits dest: lex_step_defined)
qed

lemma complete_defined: "v \<noteq> JUndefined \<Longrightarrow> fst (complete v st) \<noteq> PDone JUndefined"
  by (induction v st rule: complete.induct) simp_all

lemma parse_step_defined:
  assumes "t \<noteq> TLiteral JUndefined" "parse_step m st t = Some (m', st')"
  shows "m' \<noteq> PDone JUndefined"
proof -
  have b: "begin_value t st = Some (m', st') \<Longrightarrow> m' \<noteq> PDone JUndefined"
    using assms(1) complete_defined
    by (induction t st rule: begin_value.induct) (auto simp: prod_eq_iff)
  have c: "close_frame t st = Some (m', st') \<Longrightarrow> m' \<noteq> PDone JUndefined"
    using complete_defined
    by (induction t st rule: close_frame.induct) (auto simp: prod_eq_iff)
  have k: "expect_key t st = Some (m', st') \<Longrightarrow> m' \<noteq> PDone JUndefined"
    by (induction t st rule: expect_key.induct) auto
  from assms(2) b c k show ?thesis
    by (cases m) (auto split: if_splits list.splits frame.splits)
qed

lemma parse_tokens_defined:
  "TLiteral JUndefined \<notin> set ts \<Longrightarrow> m \<noteq> PDone JUndefined
   \<Longrightarrow> parse_tokens m st ts \<noteq> Some JUndefined"
proof (induction ts arbitrary: m st)
  case Nil
  then show ?case by (cases m) auto
next
  case (Cons t ts)
  show ?case
  proof (cases "parse_step m st t")
    case None
    then show ?thesis by simp
  next
    case (Some a)
    obtain m' st' where a: "a = (m', st')" by (cases a)
    from Cons.prems Some a have "m' \<noteq> PDone JUndefined"
      by (intro parse_step_defined [of t m st m' st']) auto
    with Cons Some a show ?thesis by simp
  qed
qed

lemma JSON_parse_defined: "JSON_parse text \<noteq> Some JUndefined"
proof (cases "lex_json LIdle text")
  case None
  then show ?thesis by (simp add: JSON_parse_def)
next
  case (Some ts)
  then have "TLiteral JUndefined \<notin> set ts" by (rule lex_json_defined)
  then have "parse_tokens PValue [] ts \<noteq> Some JUndefined"
    by (rule parse_tokens_defined) simp
  with Some show ?thesis by (simp add: JSON_parse_def)
qed

lemma parseJsonResponse_defined: "parseJsonResponse content \<noteq> JUndefined"
  using JSON_parse_defined [of "jsonStr content"]
  by (auto simp: parseJsonResponse_def split: option.splits)

subsection \<open>The classifier as a whole\<close>

lemma getMockCategorization_valid:
  "category (getMockCategorization message)
     \<in> {js ''Billing Issue'', js ''Technical Problem'', js ''Feature Request'',
        js ''General Inquiry''}"
  "sentiment (getMockCategorization message) = js ''Angry''
     \<or> sentiment (getMockCategorization message) = js ''Neutral''"
  "priority_score (getMockCategorization message) \<in> {Fin 1, Fin 2, Fin 3, Fin 4, Fin 5}"
  "reasoning (getMockCategorization message) \<noteq> []"
  by (simp_all add: getMockCategorization_def Let_def reasoning_billing_def
        reasoning_technical_def reasoning_feature_def reasoning_inquiry_def
        reasoning_positive_def reasoning_ambiguous_def js_def)

lemma categorizeMessage_fallback:
  "takes_fallback outcome \<Longrightarrow> categorizeMessage message outcome = getMockCategorization message"
  by (cases outcome)
     (auto simp: takes_fallback_def categorizeMessage_def Let_def split: sum.splits)

lemma categorizeMessage_normalized:
  "\<not> takes_fallback outcome \<Longrightarrow>
   \<exists>text. outcome = Reply text
     \<and> normalizeCategorizationResult (parseJsonResponse (trim text))
         = Inr (categorizeMessage message outcome)"
  by (cases outcome)
     (auto simp: takes_fallback_def categorizeMessage_def Let_def split: sum.splits)

text \<open>
  C1. \<open>categorizeMessage\<close> is a total function into results (the model has no error
  outcome: whatever is thrown inside the \<open>try\<close> block is caught). For every message and
  every outcome of the remote call, a failure or a reply with any text, the result has
  sentiment \<open>Neutral\<close> or \<open>Angry\<close>, an integer priority from 1 to 5 and a reasoning that
  is not empty; and when the fallback path is taken, the result is the heuristic's and
  its category is one of the five canonical values.
\<close>

theorem categorizeMessage_valid:
  "sentiment (categorizeMessage message outcome) \<in> {js ''Neutral'', js ''Angry''}
   \<and> priority_score (categorizeMessage message outcome) \<in> {Fin 1, Fin 2, Fin 3, Fin 4, Fin 5}
   \<and> reasoning (categorizeMessage message outcome) \<noteq> []
   \<and> (takes_fallback outcome \<longrightarrow>
        categorizeMessage message outcome = getMockCategorization message
        \<and> category (categorizeMessage message outcome) \<in> canonical_categories)"
proof (cases "takes_fallback outcome")
  case True
  then have "categorizeMessage message outcome = getMockCategorization message"
    by (rule categorizeMessage_fallback)
  with True getMockCategorization_valid [of message] show ?thesis
    by (auto simp: canonical_categories_def)
next
  case False
  then obtain t where
    "normalizeCategorizationResult (parseJsonResponse (trim t))
       = Inr (categorizeMessage message outcome)"
    using categorizeMessage_normalized by blast
  from normalize_result_shape(3,4,5) [OF this] False show ?thesis by auto
qed

theorem categorizeMessage_valid_witness:
  "takes_fallback (Reply ''null'') \<and> takes_fallback RequestFailed
   \<and> categorizeMessage ''hello there'' (Reply ''null'') = getMockCategorization ''hello there''
   \<and> category (categorizeMessage ''hello there'' (Reply ''null'')) \<in> canonical_categories
   \<and> category (categorizeMessage ''hello there'' RequestFailed) \<in> canonical_categories"
proof -
  have a: "takes_fallback (Reply ''null'')" by code_simp
  have b: "takes_fallback RequestFailed" by (simp add: takes_fallback_def)
  from categorizeMessage_valid [of "''hello there''" "Reply ''null''"] a
  have c: "categorizeMessage ''hello there'' (Reply ''null'') = getMockCategorization ''hello there''
     \<and> category (categorizeMessage ''hello there'' (Reply ''null'')) \<in> canonical_categories"
    by blast
  from categorizeMessage_valid [of "''hello there''" RequestFailed] b
  have d: "category (categorizeMessage ''hello there'' RequestFailed) \<in> canonical_categories"
    by blast
  from a b c d show ?thesis by blast
qed

text \<open>
  C2. The claim is that the heuristic is reached only when the remote request itself
  fails, and that every reply text the call returns is normalised. The code reaches the
  heuristic on a returned reply as well: the reply \<open>null\<close> is valid JSON and parses to
  \<open>null\<close>; reading \<open>parsed.category\<close> then throws inside the \<open>try\<close> block, no
  normalisation result exists, and the \<open>catch\<close> returns the heuristic's result. Replies
  that are as unusable (an empty array, a text that is not JSON) get the normalisation
  defaults, as the claim says.
\<close>

theorem null_reply_reaches_heuristic:
  "JSON_parse ''null'' = Some JNull
   \<and> parseJsonResponse (trim ''null'') = JNull
   \<and> normalizeCategorizationResult (parseJsonResponse (trim ''null'')) = Inl TypeError
   \<and> categorizeMessage ''hello there'' (Reply ''null'') = getMockCategorization ''hello there''
   \<and> categorizeMessage ''hello there'' (Reply ''null'') =
       \<lparr>category = js ''General Inquiry'', sentiment = js ''Neutral'', priority_score = Fin 2,
        reasoning = js reasoning_ambiguous\<rparr>
   \<and> categorizeMessage ''hello there'' (Reply ''[]'') = default_result
   \<and> categorizeMessage ''hello there'' (Reply ''Sorry, I cannot help.'') = default_result"
  by code_simp

theorem null_reply_reaches_heuristic_witness:
  "category (categorizeMessage ''hello there'' (Reply ''null'')) = js ''General Inquiry''
   \<and> priority_score (categorizeMessage ''hello there'' (Reply ''null'')) = Fin 2
   \<and> category default_result = js ''Unknown''
   \<and> priority_score default_result = Fin 3"
proof -
  from null_reply_reaches_heuristic
  have e: "categorizeMessage ''hello there'' (Reply ''null'') =
       \<lparr>category = js ''General Inquiry'', sentiment = js ''Neutral'', priority_score = Fin 2,
        reasoning = js reasoning_ambiguous\<rparr>"
    by blast
  show ?thesis unfolding e by (simp add: default_result_def)
qed

text \<open>
  The catch block runs exactly when the request fails or the normalisation throws, and
  the normalisation of a reply throws exactly when the reply parses to \<open>null\<close> or its
  \<open>priority_score\<close> cannot be converted to a primitive.
\<close>

lemma takes_fallback_iff:
  "takes_fallback outcome \<longleftrightarrow>
     outcome = RequestFailed
     \<or> (\<exists>t. outcome = Reply t
            \<and> (parseJsonResponse (trim t) = JNull
                \<or> ToPrimitive_throws
                     (property (parseJsonResponse (trim t)) (js ''priority_score''))))"
proof (cases outcome)
  case RequestFailed
  then show ?thesis by (simp add: takes_fallback_def)
next
  case (Reply t)
  have "isl (normalizeCategorizationResult (parseJsonResponse (trim t)))
        \<longleftrightarrow> normalizeCategorizationResult (parseJsonResponse (trim t)) = Inl TypeError"
    by (cases "normalizeCategorizationResult (parseJsonResponse (trim t))")
       (auto simp: js_error_eq [of _ TypeError])
  with Reply show ?thesis
    using normalize_throws_iff [of "parseJsonResponse (trim t)" TypeError]
      parseJsonResponse_defined [of "trim t"]
    by (simp add: takes_fallback_def)
qed

text \<open>
  For every reply text that the call returns: when what is parsed is not valid JSON, the
  result is the normalisation defaults; when the parsed value is not \<open>null\<close> and its
  \<open>priority_score\<close> converts to a number without throwing, the result is the result of
  normalisation; when the parsed value is \<open>null\<close>, the result is the heuristic's.
\<close>

lemma reply_normalized:
  "(JSON_parse (jsonStr (trim text)) = None \<longrightarrow>
      categorizeMessage message (Reply text) = default_result)
   \<and> (parseJsonResponse (trim text) \<noteq> JNull
        \<and> \<not> ToPrimitive_throws (property (parseJsonResponse (trim text)) (js ''priority_score''))
      \<longrightarrow> normalizeCategorizationResult (parseJsonResponse (trim text))
            = Inr (categorizeMessage message (Reply text)))
   \<and> (parseJsonResponse (trim text) = JNull \<longrightarrow>
      categorizeMessage message (Reply text) = getMockCategorization message)"
proof (intro conjI impI)
  assume "JSON_parse (jsonStr (trim text)) = None"
  then have "parseJsonResponse (trim text) = JObj []"
    by (simp add: parseJsonResponse_def)
  moreover have "normalizeCategorizationResult (JObj []) = Inr default_result"
    by code_simp
  ultimately show "categorizeMessage message (Reply text) = default_result"
    by (simp add: categorizeMessage_def Let_def)
next
  assume "parseJsonResponse (trim text) \<noteq> JNull
    \<and> \<not> ToPrimitive_throws (property (parseJsonResponse (trim text)) (js ''priority_score''))"
  then have "\<not> isl (normalizeCategorizationResult (parseJsonResponse (trim text)))"
    using normalize_throws_iff [of "parseJsonResponse (trim text)" TypeError]
      parseJsonResponse_defined [of "trim text"]
    by (cases "normalizeCategorizationResult (parseJsonResponse (trim text))")
       (auto simp: js_error_eq [of _ TypeError])
  then have "\<not> takes_fallback (Reply text)"
    by (simp add: takes_fallback_def)
  from categorizeMessage_normalized [OF this]
  show "normalizeCategorizationResult (parseJsonResponse (trim text))
          = Inr (categorizeMessage message (Reply text))"
    by simp
next
  assume "parseJsonResponse (trim text) = JNull"
  then have "takes_fallback (Reply text)"
    using normalize_throws_iff [of "parseJsonResponse (trim text)" TypeError]
    by (simp add: takes_fallback_def)
  then show "categorizeMessage message (Reply text) = getMockCategorization message"
    by (rule categorizeMessage_fallback)
qed


text \<open>
  A reply may write a character as an escape \<open>\\uXXXX\<close>; the parsed string then holds
  that code unit, here the apostrophe \<open>U+2019\<close>.
\<close>

lemma reply_with_unicode_escape:
  \<open>categorizeMessage ''hello there''
     (Reply (''{"category":"Technical Problem","sentiment":"Angry","priority_score":5,''
             @ ''"reasoning":"The app doesn'' @ [CHR 0x5C] @ ''u2019t load"}''))
   = \<lparr>category = js ''Technical Problem'', sentiment = js ''Angry'', priority_score = Fin 5,
      reasoning = js ''The app doesn'' @ [0x2019] @ js ''t load''\<rparr>\<close>
  by code_simp

subsection \<open>The code fence\<close>

lemma js_includes_append_left: "js_includes s sub \<Longrightarrow> js_includes (p @ s) sub"
  by (induction p) (auto simp: neq_Nil_conv)

lemma js_includes_suffix:
  "suffix a b \<Longrightarrow> js_includes (a @ x) sub \<Longrightarrow> js_includes (b @ x) sub"
  by (auto simp: suffix_def js_includes_append_left)

lemma fence_prefix_shorter:
  "prefix ''```'' ((c # b) @ ''```'' @ r) \<Longrightarrow> prefix ''```'' ((c # b) @ ''``'')"
proof (cases b)
  case Nil
  then show "prefix ''```'' ((c # b) @ ''```'' @ r) \<Longrightarrow> prefix ''```'' ((c # b) @ ''``'')"
    by simp
next
  case (Cons d b')
  then show "prefix ''```'' ((c # b) @ ''```'' @ r) \<Longrightarrow> prefix ''```'' ((c # b) @ ''``'')"
    by (cases b') auto
qed

lemma split_fence_skip:
  "\<not> prefix ''```'' (c # cs) \<Longrightarrow>
   split_fence (c # cs) = map_option (\<lambda>(before, after). (c # before, after)) (split_fence cs)"
  by (simp only: split_fence.simps if_False)

lemma split_fence_first:
  "\<not> js_includes (b @ ''``'') ''```'' \<Longrightarrow> split_fence (b @ ''```'' @ r) = Some (b, r)"
proof (induction b)
  case Nil
  show ?case by simp
next
  case (Cons c b)
  from Cons.prems have "\<not> prefix ''```'' ((c # b) @ ''``'')"
    and rest: "\<not> js_includes (b @ ''``'') ''```''"
    by simp_all
  then have "\<not> prefix ''```'' ((c # b) @ ''```'' @ r)"
    using fence_prefix_shorter by blast
  then have np: "\<not> prefix ''```'' (c # (b @ ''```'' @ r))"
    by simp
  have e: "(c # b) @ ''```'' @ r = c # (b @ ''```'' @ r)"
    by simp
  show ?case
    unfolding e split_fence_skip [OF np] Cons.IH [OF rest] by simp
qed

lemma split_fence_none: "\<not> js_includes s ''```'' \<Longrightarrow> split_fence s = None"
  by (induction s) auto

lemma fence_tag_prefix: "prefix ''json'' (block @ ''```'' @ r) \<longleftrightarrow> prefix ''json'' block"
proof (cases block)
  case Nil
  then show ?thesis by simp
next
  case c1: (Cons a l1)
  show ?thesis
  proof (cases l1)
    case Nil
    with c1 show ?thesis by simp
  next
    case c2: (Cons b l2)
    show ?thesis
    proof (cases l2)
      case Nil
      with c1 c2 show ?thesis by simp
    next
      case c3: (Cons c l3)
      with c1 c2 show ?thesis by (cases l3) simp_all
    qed
  qed
qed

lemma trim_dropWhile: "trim (dropWhile is_js_space s) = trim s"
  by (simp add: trim_def)

lemma codeBlockMatch_first:
  assumes "\<not> js_includes (pre @ ''``'') ''```''"
    and "\<not> js_includes (block @ ''``'') ''```''"
  shows "codeBlockMatch (pre @ ''```'' @ block @ ''```'' @ post)
         = Some (dropWhile is_js_space (if prefix ''json'' block then drop 4 block else block))"
proof -
  let ?untagged = "if prefix ''json'' block then drop 4 block else block"
  let ?body = "dropWhile is_js_space ?untagged"
  have opened: "split_fence (pre @ ''```'' @ block @ ''```'' @ post)
                = Some (pre, block @ ''```'' @ post)"
    using assms(1) by (rule split_fence_first)
  have tagged: "(if prefix ''json'' (block @ ''```'' @ post)
                 then drop 4 (block @ ''```'' @ post) else block @ ''```'' @ post)
                = ?untagged @ ''```'' @ post"
  proof (cases "prefix ''json'' block")
    case True
    then have "length ''json'' \<le> length block" by (rule prefix_length_le)
    with True show ?thesis unfolding fence_tag_prefix by simp
  next
    case False
    then show ?thesis unfolding fence_tag_prefix by simp
  qed
  have "\<not> is_js_space (CHR 0x60)" by (simp add: is_js_space_def)
  then have body: "dropWhile is_js_space (?untagged @ ''```'' @ post) = ?body @ ''```'' @ post"
    by (simp add: dropWhile_append3)
  have "suffix ?body block"
    by (auto intro: suffix_order.trans [OF suffix_dropWhile] suffix_drop)
  with assms(2) have "\<not> js_includes (?body @ ''``'') ''```''"
    using js_includes_suffix by blast
  then have closed: "split_fence (?body @ ''```'' @ post) = Some (?body, post)"
    by (rule split_fence_first)
  show ?thesis
    unfolding codeBlockMatch_def opened option.case prod.case Let_def tagged body closed
    by simp
qed



subsection \<open>White space around a JSON text\<close>

lemma js_space_cases:
  assumes "is_js_space c"
  shows "c \<in> {CHR 0x09, CHR 0x0A, CHR 0x0B, CHR 0x0C, CHR 0x0D, CHR 0x20, CHR 0xA0}"
proof -
  have c: "c = char_of (of_char c :: nat)" by simp
  from assms have "(of_char c :: nat) \<in> {9, 10, 11, 12, 13, 32, 160}"
    by (simp add: is_js_space_def)
  then have "char_of (of_char c :: nat)
             \<in> {CHR 0x09, CHR 0x0A, CHR 0x0B, CHR 0x0C, CHR 0x0D, CHR 0x20, CHR 0xA0}"
    by (elim insertE emptyE) (simp_all only: , code_simp+)
  with c show ?thesis by simp
qed

lemma lex_idle_space:
  "is_js_space c \<Longrightarrow> lex_idle c = None \<or> lex_idle c = Some (LIdle, [])"
  by (drule js_space_cases, elim insertE emptyE) (simp_all only: , code_simp+)

lemma lex_step_space:
  assumes "is_js_space c" "lex_step m c = Some (m', ts)" "lex_end m' = Some rest"
  shows "lex_end m = Some (ts @ rest)"
proof (cases m)
  case LIdle
  with assms lex_idle_space [of c] show ?thesis by auto
next
  case (LWord w)
  from assms(1) have "\<not> is_word_char c"
    by (drule_tac js_space_cases, elim insertE emptyE) (simp_all only: , code_simp+)
  with LWord assms lex_idle_space [of c] show ?thesis
    by (auto split: option.splits)
next
  case (LStr s)
  from assms(1) have "c \<noteq> CHR 0x22 \<and> c \<noteq> CHR 0x5C"
    by (drule_tac js_space_cases, elim insertE emptyE) (simp_all only: , code_simp+)
  with LStr assms show ?thesis
    by (auto split: if_splits)
next
  case (LEsc s)
  from assms(1) have "c \<noteq> CHR ''u'' \<and> escape_char c = None"
    by (drule_tac js_space_cases, elim insertE emptyE) (simp_all only: , code_simp+)
  with LEsc assms show ?thesis by auto
next
  case (LUni s h)
  from assms(1) have "\<not> is_radix_digit 16 c"
    by (drule_tac js_space_cases, elim insertE emptyE) (simp_all only: , code_simp+)
  with LUni assms show ?thesis by auto
qed

lemma lex_json_spaces:
  "list_all is_js_space w \<Longrightarrow> lex_json m w = Some ts \<Longrightarrow> lex_end m = Some ts"
proof (induction w arbitrary: m ts)
  case Nil
  then show ?case by simp
next
  case (Cons c w)
  from Cons.prems(2) obtain m' ts1 rest where
    step: "lex_step m c = Some (m', ts1)" and rest: "lex_json m' w = Some rest"
    and ts: "ts = ts1 @ rest"
    by (auto split: option.splits)
  from Cons.prems(1) have "list_all is_js_space w" "is_js_space c" by simp_all
  from this(2) step Cons.IH [OF this(1) rest] show ?case
    unfolding ts by (rule lex_step_space)
qed

lemma lex_json_trailing:
  "list_all is_js_space w \<Longrightarrow> lex_json m (s @ w) = Some ts \<Longrightarrow> lex_json m s = Some ts"
proof (induction s arbitrary: m ts)
  case Nil
  then show ?case by (simp add: lex_json_spaces)
next
  case (Cons c s)
  from Cons.prems(2) obtain m' ts1 rest where
    step: "lex_step m c = Some (m', ts1)" and rest: "lex_json m' (s @ w) = Some rest"
    and ts: "ts = ts1 @ rest"
    by (auto split: option.splits)
  from Cons.IH [OF Cons.prems(1) rest] step ts show ?case by simp
qed

lemma lex_json_leading:
  "lex_json LIdle s = Some ts \<Longrightarrow> lex_json LIdle (dropWhile is_js_space s) = Some ts"
proof (induction s)
  case Nil
  then show ?case by simp
next
  case (Cons c s)
  show ?case
  proof (cases "is_js_space c")
    case True
    with Cons.prems lex_idle_space [of c] have "lex_json LIdle s = Some ts"
      by (auto split: option.splits)
    with True Cons.IH show ?thesis by simp
  next
    case False
    with Cons.prems show ?thesis by simp
  qed
qed

lemma trim_decompose:
  "dropWhile is_js_space s = trim s @ rev (takeWhile is_js_space (rev (dropWhile is_js_space s)))"
proof -
  have "rev (dropWhile P (rev xs)) @ rev (takeWhile P (rev xs)) = xs" for P and xs :: string
    using takeWhile_dropWhile_id [of P "rev xs"]
    by (metis rev_append rev_rev_ident)
  then show ?thesis by (simp add: trim_def)
qed

lemma lex_json_trim:
  assumes "lex_json LIdle j = Some ts"
  shows "lex_json LIdle (trim j) = Some ts"
proof -
  let ?w = "rev (takeWhile is_js_space (rev (dropWhile is_js_space j)))"
  have "list_all is_js_space ?w"
    by (auto simp: list_all_iff dest: set_takeWhileD)
  moreover from assms have "lex_json LIdle (trim j @ ?w) = Some ts"
    using lex_json_leading trim_decompose [of j] by simp
  ultimately show ?thesis by (rule lex_json_trailing)
qed

lemma JSON_parse_trim: "JSON_parse j = Some v \<Longrightarrow> JSON_parse (trim j) = Some v"
  by (auto simp: JSON_parse_def lex_json_trim split: option.splits)

lemma trim_padded:
  assumes "is_js_space a" "is_js_space b"
  shows "trim (a # s @ [b]) = trim s"
proof -
  have "trim (s @ [b]) = trim s"
  proof (cases "\<forall>x\<in>set s. is_js_space x")
    case True
    then have e1: "dropWhile is_js_space s = []" by simp
    from True assms have e2: "dropWhile is_js_space (s @ [b]) = []"
      by (simp add: dropWhile_append)
    show ?thesis unfolding trim_def e1 e2 ..
  next
    case False
    then have e: "dropWhile is_js_space (s @ [b]) = dropWhile is_js_space s @ [b]"
      by (metis dropWhile_append1)
    show ?thesis unfolding trim_def e using assms by simp
  qed
  moreover have "trim (a # s @ [b]) = trim (s @ [b])"
    using assms by (simp add: trim_def)
  ultimately show ?thesis by simp
qed

subsection \<open>A fenced JSON text\<close>

lemma no_fence_before_newline:
  "\<not> js_includes j ''```'' \<Longrightarrow> \<not> js_includes (j @ CHR 0x0A # ''``'') ''```''"
proof (induction j)
  case Nil
  show ?case by simp
next
  case (Cons c j)
  have "prefix ''```'' ((c # j) @ CHR 0x0A # ''``'') \<Longrightarrow> prefix ''```'' (c # j)"
  proof (cases j)
    case Nil
    then show "prefix ''```'' ((c # j) @ CHR 0x0A # ''``'') \<Longrightarrow> prefix ''```'' (c # j)"
      by simp
  next
    case (Cons d j')
    then show "prefix ''```'' ((c # j) @ CHR 0x0A # ''``'') \<Longrightarrow> prefix ''```'' (c # j)"
      by (cases j') auto
  qed
  with Cons show ?case by auto
qed

lemma jsonStr_fenced:
  assumes "\<not> js_includes j ''```''"
  shows "jsonStr (fenced_json j) = trim j"
proof -
  let ?block = "''json'' @ CHR 0x0A # j @ [CHR 0x0A]"
  have shape: "fenced_json j = [] @ ''```'' @ ?block @ ''```'' @ []"
    by (simp add: fenced_json_def)
  have none: "\<not> js_includes ([] @ ''``'') ''```''" by simp
  from assms have "\<not> js_includes (j @ CHR 0x0A # ''``'') ''```''"
    by (rule no_fence_before_newline)
  then have block: "\<not> js_includes (?block @ ''``'') ''```''"
    by simp
  have tag: "prefix ''json'' ?block" "drop 4 ?block = CHR 0x0A # j @ [CHR 0x0A]"
    by simp_all
  have sp: "is_js_space (CHR 0x0A)" by (simp add: is_js_space_def)
  have "jsonStr (fenced_json j) = trim (dropWhile is_js_space (CHR 0x0A # j @ [CHR 0x0A]))"
    unfolding shape jsonStr_def codeBlockMatch_first [OF none block] option.case
    using tag by (simp only: if_True)
  also have "\<dots> = trim (CHR 0x0A # j @ [CHR 0x0A])" by (rule trim_dropWhile)
  also have "\<dots> = trim j" using sp sp by (rule trim_padded)
  finally show ?thesis .
qed

lemma jsonStr_unfenced: "\<not> js_includes j ''```'' \<Longrightarrow> jsonStr j = j"
  by (simp add: jsonStr_def codeBlockMatch_def split_fence_none)

text \<open>
  C6. The claim is that for every JSON text \<open>j\<close>, the text wrapped in a fenced code
  block tagged \<open>json\<close> gives the same parsed object as \<open>j\<close> unfenced. The code does
  not do this for a JSON text that holds three backticks in a row inside a string:
  fenced, the lazy group stops at these backticks, what is parsed is a truncated text,
  and the result is the empty object; unfenced, the text parses as it is.
\<close>

theorem fenced_backticks_cut_short:
  \<open>JSON_parse ''{"reasoning":"```"}'' = Some (JObj [(js ''reasoning'', JStr (js ''```''))])
   \<and> parseJsonResponse ''{"reasoning":"```"}'' = JObj [(js ''reasoning'', JStr (js ''```''))]
   \<and> jsonStr (fenced_json ''{"reasoning":"```"}'') = ''{"reasoning":"''
   \<and> parseJsonResponse (fenced_json ''{"reasoning":"```"}'') = JObj []\<close>
  by code_simp

text \<open>
  Every other JSON text is handled as the claim says: for a JSON text \<open>j\<close> without
  three backticks in a row, the fenced text and \<open>j\<close> itself both parse to the value
  that \<open>JSON.parse\<close> gives for \<open>j\<close> (the white space that \<open>trim\<close> removes around the
  captured group is white space that \<open>JSON.parse\<close> skips).
\<close>

lemma fenced_json_same_object:
  assumes "JSON_parse j = Some v" and "\<not> js_includes j ''```''"
  shows "parseJsonResponse (fenced_json j) = v \<and> parseJsonResponse j = v"
proof
  from assms(1) have "JSON_parse (trim j) = Some v" by (rule JSON_parse_trim)
  then show "parseJsonResponse (fenced_json j) = v"
    by (simp add: parseJsonResponse_def jsonStr_fenced [OF assms(2)])
  from assms(1) show "parseJsonResponse j = v"
    by (simp add: parseJsonResponse_def jsonStr_unfenced [OF assms(2)])
qed

end
